theory Spec2Isabelle
  imports Main
begin

section \<open>Column resize deltas of the table engine (ephox.snooker.calc.Deltas)\<close>

text \<open>
  The module computes, for a drag of one column boundary, the offset to add to every
  column width. Its numbers are IEEE 754 doubles: a sum or difference is the exact
  result rounded to 53 significant bits, ties to even, and a result of magnitude
  \<open>2^1024\<close> or more is an infinity. The widths, the step and the minimum width are
  integers, so the model covers the doubles that hold an integer, the two infinities
  that their sums can overflow to, and \<open>NaN\<close>. It does not tell \<open>-0\<close> (the negation of
  a zero step) from \<open>0\<close>: the two are equal under every comparison of the source.
  The column index is any integer, also one outside the sequence.

  Reading an array outside its bounds gives \<open>undefined\<close> in the source, which the
  arithmetic after it turns into \<open>NaN\<close>. The model makes that visible: a read is
  \<open>lookup\<close>, which returns \<open>None\<close> outside the bounds, and every function that reads
  returns an option, \<open>None\<close> standing for a result computed from such a read.
\<close>

subsection \<open>Numbers\<close>

function exponent_of :: "int \<Rightarrow> nat" where
  \<comment> \<open>How many low bits a magnitude loses to fit 53 bits.\<close>
  "exponent_of n = (if n < 2 ^ 53 then 0 else Suc (exponent_of (n div 2)))"
  by pat_completeness auto
termination
  by (relation "measure nat") auto

declare exponent_of.simps [simp del]

definition round_magnitude :: "int \<Rightarrow> int" where
  \<comment> \<open>Round a non-negative integer to 53 significant bits, ties to the even mantissa.\<close>
  "round_magnitude n =
     (let e = exponent_of n; q = n div 2 ^ e; r = n mod 2 ^ e
      in if 2 * r < 2 ^ e \<or> (2 * r = 2 ^ e \<and> even q) then q * 2 ^ e else (q + 1) * 2 ^ e)"

definition round_int :: "int \<Rightarrow> int" where
  "round_int x = (if x < 0 then - round_magnitude (- x) else round_magnitude x)"

definition huge :: int where
  \<comment> \<open>The least magnitude that overflows.\<close>
  "huge = 2 ^ 1024"

definition is_double :: "int \<Rightarrow> bool" where
  \<comment> \<open>The integers that a finite double holds.\<close>
  "is_double x \<longleftrightarrow> round_int x = x \<and> \<bar>x\<bar> < huge"

datatype number = Fin int | PInf | NInf | NaN

instantiation number :: zero
begin

definition zero_number :: number where
  "zero_number = Fin 0"

instance ..

end

definition number_of :: "int \<Rightarrow> number" where
  \<comment> \<open>The double nearest to an integer: the result of an exact sum, rounded.\<close>
  "number_of x =
     (let r = round_int x
      in if r \<ge> huge then PInf else if r \<le> - huge then NInf else Fin r)"

fun neg :: "number \<Rightarrow> number" where
  \<comment> \<open>\<open>-a\<close>, exact\<close>
  "neg (Fin a) = Fin (- a)"
| "neg PInf = NInf"
| "neg NInf = PInf"
| "neg NaN = NaN"

fun add :: "number \<Rightarrow> number \<Rightarrow> number" where
  \<comment> \<open>\<open>a + b\<close>\<close>
  "add NaN b = NaN"
| "add a NaN = NaN"
| "add PInf NInf = NaN"
| "add NInf PInf = NaN"
| "add PInf b = PInf"
| "add a PInf = PInf"
| "add NInf b = NInf"
| "add a NInf = NInf"
| "add (Fin a) (Fin b) = number_of (a + b)"

definition sub :: "number \<Rightarrow> number \<Rightarrow> number" where
  \<comment> \<open>\<open>a - b\<close>, which IEEE 754 defines as \<open>a + (-b)\<close>\<close>
  "sub a b = add a (neg b)"

fun js_max :: "number \<Rightarrow> number \<Rightarrow> number" where
  \<comment> \<open>\<open>Math.max(a, b)\<close>\<close>
  "js_max NaN b = NaN"
| "js_max a NaN = NaN"
| "js_max PInf b = PInf"
| "js_max a PInf = PInf"
| "js_max NInf b = b"
| "js_max a NInf = a"
| "js_max (Fin a) (Fin b) = Fin (max a b)"

fun ge_zero :: "number \<Rightarrow> bool" where
  \<comment> \<open>\<open>a >= 0\<close>\<close>
  "ge_zero (Fin a) = (a \<ge> 0)"
| "ge_zero PInf = True"
| "ge_zero NInf = False"
| "ge_zero NaN = False"

text \<open>
  The arguments of \<open>determine\<close> are integers held by finite doubles. The type \<open>double\<close>
  has exactly these as its values; \<open>val\<close> is the integer held, and \<open>double_of x\<close> is the
  double that holds \<open>x\<close>, for an \<open>x\<close> that a double holds (it is only applied to such).
  A \<open>number\<close> is what the arithmetic produces from them: \<open>Fin x\<close> for the double that
  holds \<open>x\<close>, an infinity, or \<open>NaN\<close>. The operands that \<open>determine\<close> passes to \<open>add\<close>
  and \<open>sub\<close> are the widths, the negated step and results of \<open>number_of\<close>, so every
  \<open>Fin x\<close> that occurs holds a double.
\<close>

typedef double = "{x :: int. is_double x}"
  by (rule exI [of _ 0])
    (simp add: is_double_def round_int_def round_magnitude_def exponent_of.simps [of 0] huge_def)

setup_lifting type_definition_double

lift_definition val :: "double \<Rightarrow> int" is "\<lambda>x. x" .

lift_definition double_of :: "int \<Rightarrow> double" is "\<lambda>x. if is_double x then x else 0"
  by (simp add: is_double_def round_int_def round_magnitude_def exponent_of.simps [of 0] huge_def)

definition num :: "double \<Rightarrow> number" where
  "num d = Fin (val d)"

subsection \<open>Array primitives\<close>

definition lookup :: "double list \<Rightarrow> int \<Rightarrow> number option" where
  \<comment> \<open>\<open>array[i]\<close>\<close>
  "lookup array i =
     (if 0 \<le> i \<and> i < int (length array) then Some (num (array ! nat i)) else None)"

definition slice :: "'a list \<Rightarrow> int \<Rightarrow> int \<Rightarrow> 'a list" where
  \<comment> \<open>\<open>array.slice(start, end)\<close>: a negative bound counts from the end, both bounds are
      clamped to the array, and an empty range gives the empty array.\<close>
  "slice array start end =
     (let len = int (length array);
          k = (if start < 0 then max (len + start) 0 else min start len);
          final = (if end < 0 then max (len + end) 0 else min end len)
      in take (nat (final - k)) (drop (nat k) array))"

definition slice_from :: "'a list \<Rightarrow> int \<Rightarrow> 'a list" where
  \<comment> \<open>\<open>array.slice(start)\<close>: the end defaults to the length.\<close>
  "slice_from array start = slice array start (int (length array))"

subsection \<open>ColumnContext\<close>

text \<open>
  Modelled from the spec: the module \<open>ephox.snooker.calc.ColumnContext\<close> is not among the
  sources. The specification describes it as a tagged value, one of None, Only(index),
  Left(index, next), Middle(prev, index, next), Right(prev, index), consumed once by a fold
  that dispatches to one handler per variant, in the order none, only, left, middle, right.
\<close>

datatype ColumnContext =
    CtxNone
  | CtxOnly int
  | CtxLeft int int
  | CtxMiddle int int int
  | CtxRight int int

text \<open>
  Modelled from the spec: the fold of \<open>ColumnContext\<close>, which is not among the sources
  either. It calls the handler of the variant with the variant's fields; \<open>onNone\<close> is
  a constant function in \<open>determine\<close>, so its value is passed.
\<close>

definition fold_ctx ::
  "ColumnContext \<Rightarrow> 'a \<Rightarrow> (int \<Rightarrow> 'a) \<Rightarrow> (int \<Rightarrow> int \<Rightarrow> 'a) \<Rightarrow> (int \<Rightarrow> int \<Rightarrow> int \<Rightarrow> 'a) \<Rightarrow>
   (int \<Rightarrow> int \<Rightarrow> 'a) \<Rightarrow> 'a" where
  "fold_ctx context onNone onOnly onLeft onMiddle onRight =
     (case context of
        CtxNone \<Rightarrow> onNone
      | CtxOnly index \<Rightarrow> onOnly index
      | CtxLeft index next \<Rightarrow> onLeft index next
      | CtxMiddle prev index next \<Rightarrow> onMiddle prev index next
      | CtxRight prev index \<Rightarrow> onRight prev index)"

subsection \<open>Deltas\<close>

definition neighbours :: "'a list \<Rightarrow> int \<Rightarrow> ColumnContext" where
  "neighbours input index =
     (if length input = 0 then CtxNone
      else if length input = 1 then CtxOnly 0
      else if index = 0 then CtxLeft 0 1
      else if index = int (length input) - 1 then CtxRight (index - 1) index
      else if index > 0 \<and> index < int (length input) - 1
        then CtxMiddle (index - 1) index (index + 1)
      else CtxNone)"

definition zero :: "'a list \<Rightarrow> number list" where
  \<comment> \<open>\<open>Arr.map(array, Fun.constant(0))\<close>\<close>
  "zero array = map (\<lambda>_. 0) array"

text \<open>
  The handlers are closures of \<open>determine\<close> over \<open>result\<close> (the copy of the input),
  the negated \<open>step\<close> and \<open>min\<close> (here \<open>minw\<close>); the model passes the three as arguments.
\<close>

definition onOnly :: "double list \<Rightarrow> number \<Rightarrow> double \<Rightarrow> int \<Rightarrow> number list option" where
  "onOnly result step minw index =
     (case lookup result index of
        None \<Rightarrow> None
      | Some w \<Rightarrow> (let newNext = js_max (num minw) (add w step) in Some [sub newNext w]))"

definition onChange ::
  "double list \<Rightarrow> number \<Rightarrow> double \<Rightarrow> int \<Rightarrow> int \<Rightarrow> number list option" where
  "onChange result step minw index next =
     (if ge_zero step then
        (case lookup result next of
           None \<Rightarrow> None
         | Some wn \<Rightarrow>
             (let newNext = js_max (num minw) (sub wn step)
              in Some (zero (slice result 0 index) @ [step, sub newNext wn]
                         @ zero (slice_from result (next + 1)))))
      else
        (case lookup result index of
           None \<Rightarrow> None
         | Some wi \<Rightarrow>
             (let newThis = js_max (num minw) (add wi step);
                  diffx = sub wi newThis
              in Some (zero (slice result 0 index) @ [sub newThis wi, diffx]
                         @ zero (slice_from result (next + 1))))))"

definition onLeft ::
  "double list \<Rightarrow> number \<Rightarrow> double \<Rightarrow> int \<Rightarrow> int \<Rightarrow> number list option" where
  "onLeft = onChange"

definition onMiddle ::
  "double list \<Rightarrow> number \<Rightarrow> double \<Rightarrow> int \<Rightarrow> int \<Rightarrow> int \<Rightarrow> number list option" where
  "onMiddle result step minw prev index next = onChange result step minw index next"

definition onRight ::
  "double list \<Rightarrow> number \<Rightarrow> double \<Rightarrow> int \<Rightarrow> int \<Rightarrow> number list option" where
  "onRight result step minw prev index =
     (if ge_zero step then Some (zero (slice result 0 index) @ [step])
      else
        (case lookup result index of
           None \<Rightarrow> None
         | Some wi \<Rightarrow>
             (let size = js_max (num minw) (add wi step)
              in Some (zero (slice result 0 index) @ [sub size wi]))))"

definition determine :: "double list \<Rightarrow> int \<Rightarrow> double \<Rightarrow> double \<Rightarrow> number list option" where
  "determine input column step0 minw =
     (let step = neg (num step0);
          result = slice_from input 0;
          context = neighbours input column;
          onNone = Some (zero result)
      in fold_ctx context onNone
           (onOnly result step minw)
           (onLeft result step minw)
           (onMiddle result step minw)
           (onRight result step minw))"

subsection \<open>Exact arithmetic on small integers\<close>

lemma round_magnitude_small: "n < 2 ^ 53 \<Longrightarrow> round_magnitude n = n"
  by (simp add: round_magnitude_def exponent_of.simps [of n])

lemma exponent_of_one: "2 ^ 53 \<le> n \<Longrightarrow> n < 2 ^ 54 \<Longrightarrow> exponent_of n = 1"
  by (simp add: exponent_of.simps [of n] exponent_of.simps [of "n div 2"])

lemma round_magnitude_2_53: "round_magnitude (2 ^ 53) = 2 ^ 53"
  by (simp add: round_magnitude_def exponent_of_one)

lemma round_magnitude_exact: "n \<le> 2 ^ 53 \<Longrightarrow> round_magnitude n = n"
  using round_magnitude_small [of n] round_magnitude_2_53 by (cases "n = 2 ^ 53") auto

lemma round_int_exact: "\<bar>x\<bar> \<le> 2 ^ 53 \<Longrightarrow> round_int x = x"
  by (auto simp add: round_int_def round_magnitude_exact)

lemma two_54_less_huge: "(2::int) ^ 54 < huge"
  unfolding huge_def by (rule power_strict_increasing) simp_all

lemma small_less_huge: "\<bar>x\<bar> < 2 ^ 54 \<Longrightarrow> \<bar>x\<bar> < huge"
  using two_54_less_huge by linarith

lemma is_double_small: "\<bar>x\<bar> \<le> 2 ^ 53 \<Longrightarrow> is_double x"
proof -
  assume a: "\<bar>x\<bar> \<le> 2 ^ 53"
  then have "\<bar>x\<bar> < 2 ^ 54" by simp
  then have "\<bar>x\<bar> < huge" by (rule small_less_huge)
  with a show ?thesis by (simp add: is_double_def round_int_exact)
qed

lemma is_double_val: "is_double (val d)"
  by transfer simp

lemma val_double_of: "is_double x \<Longrightarrow> val (double_of x) = x"
  by transfer simp

lemma val_double_of_small [simp]: "\<bar>x\<bar> \<le> 2 ^ 53 \<Longrightarrow> val (double_of x) = x"
  by (simp add: val_double_of is_double_small)

lemma number_of_exact: "\<bar>x\<bar> \<le> 2 ^ 53 \<Longrightarrow> number_of x = Fin x"
proof -
  assume a: "\<bar>x\<bar> \<le> 2 ^ 53"
  then have "\<bar>x\<bar> < 2 ^ 54" by simp
  then have "\<bar>x\<bar> < huge" by (rule small_less_huge)
  then have "\<not> huge \<le> x" and "\<not> x \<le> - huge" by linarith+
  with a show ?thesis by (simp add: number_of_def round_int_exact)
qed

lemma number_of_double: "is_double x \<Longrightarrow> number_of x = Fin x"
  by (auto simp add: number_of_def is_double_def Let_def)

lemma sub_exact: "\<bar>a - b\<bar> \<le> 2 ^ 53 \<Longrightarrow> sub (Fin a) (Fin b) = Fin (a - b)"
  by (simp add: sub_def number_of_exact)

lemma add_zero_double: "add (num w) (Fin 0) = num w"
  by (simp add: num_def number_of_double is_double_val)

lemma sub_zero_double: "sub (num w) (Fin 0) = num w"
  by (simp add: sub_def add_zero_double)

lemma sub_self: "sub (Fin a) (Fin a) = 0"
  by (simp add: sub_def number_of_exact zero_number_def)

lemma neg_num: "neg (num s) = Fin (- val s)"
  by (simp add: num_def)

lemma clip_add_exact:
  assumes "\<bar>w\<bar> \<le> 2 ^ 52" "\<bar>t\<bar> \<le> 2 ^ 52" "\<bar>mn\<bar> \<le> 2 ^ 52"
  shows "js_max (Fin mn) (add (Fin w) (Fin t)) = Fin (max mn (w + t))"
    and "sub (js_max (Fin mn) (add (Fin w) (Fin t))) (Fin w) = Fin (max mn (w + t) - w)"
    and "sub (Fin w) (js_max (Fin mn) (add (Fin w) (Fin t))) = Fin (w - max mn (w + t))"
proof -
  from assms have s: "\<bar>w + t\<bar> \<le> 2 ^ 53" by simp
  then show m: "js_max (Fin mn) (add (Fin w) (Fin t)) = Fin (max mn (w + t))"
    by (simp add: number_of_exact)
  from assms have "\<bar>max mn (w + t) - w\<bar> \<le> 2 ^ 53" "\<bar>w - max mn (w + t)\<bar> \<le> 2 ^ 53"
    by (auto simp add: max_def)
  then show "sub (js_max (Fin mn) (add (Fin w) (Fin t))) (Fin w) = Fin (max mn (w + t) - w)"
    and "sub (Fin w) (js_max (Fin mn) (add (Fin w) (Fin t))) = Fin (w - max mn (w + t))"
    by (simp_all only: m sub_exact)
qed


subsection \<open>What each branch of \<open>determine\<close> returns\<close>

lemma slice_prefix:
  "0 \<le> i \<Longrightarrow> i \<le> int (length xs) \<Longrightarrow> slice xs 0 i = take (nat i) xs"
  by (simp add: slice_def Let_def min_def)

lemma slice_from_drop:
  "0 \<le> j \<Longrightarrow> slice_from xs j = drop (nat j) xs"
  by (auto simp add: slice_from_def slice_def Let_def min_def)

lemma zero_replicate: "zero xs = replicate (length xs) 0"
  by (simp add: zero_def map_replicate_const)

lemma slice_from_copy: "slice_from xs 0 = xs"
  by (simp add: slice_from_drop)

lemma determine_only:
  "length ws = 1 \<Longrightarrow>
   determine ws i s mn =
     Some [sub (js_max (num mn) (add (num (ws ! 0)) (Fin (- val s)))) (num (ws ! 0))]"
  by (auto simp add: determine_def neighbours_def fold_ctx_def onOnly_def lookup_def Let_def
      slice_from_copy neg_num)

lemma determine_outside:
  "2 \<le> length ws \<Longrightarrow> i < 0 \<or> int (length ws) \<le> i \<Longrightarrow>
   determine ws i s mn = Some (replicate (length ws) 0)"
  by (auto simp add: determine_def neighbours_def fold_ctx_def Let_def slice_from_drop zero_replicate)

lemma determine_empty: "determine [] i s mn = Some []"
  by (simp add: determine_def neighbours_def fold_ctx_def Let_def slice_from_drop zero_replicate)

lemma onChange_grow:
  "0 \<le> i \<Longrightarrow> i < int (length ws) - 1 \<Longrightarrow> ge_zero st \<Longrightarrow>
   onChange ws st mn i (i + 1) =
     Some (replicate (nat i) 0 @
           [st, sub (js_max (num mn) (sub (num (ws ! (nat i + 1))) st)) (num (ws ! (nat i + 1)))]
           @ replicate (length ws - nat i - 2) 0)"
proof -
  assume a: "0 \<le> i" "i < int (length ws) - 1"
  then have n: "nat i + 1 < length ws" by linarith
  from a have m: "nat (i + 1 + 1) = nat i + 2" "nat (i + 1) = nat i + 1" by linarith+
  assume "ge_zero st"
  with a n m show ?thesis
    by (simp add: onChange_def lookup_def Let_def slice_prefix slice_from_drop zero_replicate)
qed

lemma onChange_shrink:
  "0 \<le> i \<Longrightarrow> i < int (length ws) - 1 \<Longrightarrow> \<not> ge_zero st \<Longrightarrow>
   onChange ws st mn i (i + 1) =
     Some (replicate (nat i) 0 @
           [sub (js_max (num mn) (add (num (ws ! nat i)) st)) (num (ws ! nat i)),
            sub (num (ws ! nat i)) (js_max (num mn) (add (num (ws ! nat i)) st))]
           @ replicate (length ws - nat i - 2) 0)"
proof -
  assume a: "0 \<le> i" "i < int (length ws) - 1"
  then have n: "nat i + 1 < length ws" by linarith
  from a have m: "nat (i + 1 + 1) = nat i + 2" "nat (i + 1) = nat i + 1" by linarith+
  assume "\<not> ge_zero st"
  with a n m show ?thesis
    by (simp add: onChange_def lookup_def Let_def slice_prefix slice_from_drop zero_replicate)
qed

lemma determine_change:
  "2 \<le> length ws \<Longrightarrow> 0 \<le> i \<Longrightarrow> i < int (length ws) - 1 \<Longrightarrow>
   determine ws i s mn = onChange ws (Fin (- val s)) mn i (i + 1)"
  by (auto simp add: determine_def neighbours_def fold_ctx_def Let_def slice_from_drop
      onLeft_def onMiddle_def neg_num)

lemma determine_right:
  "2 \<le> length ws \<Longrightarrow> i = int (length ws) - 1 \<Longrightarrow>
   determine ws i s mn =
     Some (replicate (length ws - 1) 0 @
           [if val s \<le> 0 then Fin (- val s)
            else sub (js_max (num mn) (add (num (ws ! (length ws - 1))) (Fin (- val s))))
                   (num (ws ! (length ws - 1)))])"
  by (auto simp add: determine_def neighbours_def fold_ctx_def Let_def slice_from_drop
      onRight_def lookup_def slice_prefix zero_replicate nat_diff_distrib neg_num)



lemmas determine_eval =
  determine_def neighbours_def fold_ctx_def onOnly_def onLeft_def onMiddle_def onRight_def
  onChange_def lookup_def slice_def slice_from_def zero_def Let_def num_def sub_def
  number_of_exact zero_number_def

lemma determine_change_shape:
  assumes "2 \<le> length ws" "0 \<le> i" "i < int (length ws) - 1"
  shows "\<exists>a b. determine ws i s mn =
           Some (replicate (nat i) 0 @ [a, b] @ replicate (length ws - nat i - 2) 0)"
proof (cases "ge_zero (Fin (- val s))")
  case True
  from onChange_grow [OF assms(2,3) True, of mn] determine_change [OF assms, of s mn]
  show ?thesis by (intro exI) (rule trans)
next
  case False
  from onChange_shrink [OF assms(2,3) False, of mn] determine_change [OF assms, of s mn]
  show ?thesis by (intro exI) (rule trans)
qed

lemma column_cases:
  assumes "ws = [] \<Longrightarrow> P" and "length ws = 1 \<Longrightarrow> P"
    and "2 \<le> length ws \<Longrightarrow> i < 0 \<or> int (length ws) \<le> i \<Longrightarrow> P"
    and "2 \<le> length ws \<Longrightarrow> i = int (length ws) - 1 \<Longrightarrow> P"
    and "2 \<le> length ws \<Longrightarrow> 0 \<le> i \<Longrightarrow> i < int (length ws) - 1 \<Longrightarrow> P"
  shows P
proof -
  have "length ws = 0 \<or> length ws = 1 \<or> 2 \<le> length ws" by linarith
  moreover have "i < 0 \<or> int (length ws) \<le> i \<or> i = int (length ws) - 1
      \<or> (0 \<le> i \<and> i < int (length ws) - 1)" by linarith
  ultimately show P using assms by blast
qed

lemma determine_defined: "\<exists>ds. determine ws i s mn = Some ds \<and> length ds = length ws"
proof (rule column_cases [of ws _ i])
  assume "ws = []"
  then show ?thesis by (simp add: determine_empty)
next
  assume "length ws = 1"
  then show ?thesis by (simp add: determine_only)
next
  assume "2 \<le> length ws" "i < 0 \<or> int (length ws) \<le> i"
  then show ?thesis by (simp add: determine_outside)
next
  assume "2 \<le> length ws" "i = int (length ws) - 1"
  then show ?thesis by (simp add: determine_right)
next
  assume change: "2 \<le> length ws" "0 \<le> i" "i < int (length ws) - 1"
  from determine_change_shape [OF change, of s mn] obtain a b where
    "determine ws i s mn =
       Some (replicate (nat i) 0 @ [a, b] @ replicate (length ws - nat i - 2) 0)"
    by blast
  moreover from change have "nat i + 2 + (length ws - nat i - 2) = length ws" by linarith
  ultimately show ?thesis by simp
qed

lemma pair_frame:
  "j < n + 2 + m \<Longrightarrow> (replicate n 0 @ [a, b] @ replicate m (0::number)) ! j \<noteq> 0 \<Longrightarrow>
   j = n \<or> j = n + 1"
  by (auto simp add: nth_append nth_Cons' split: if_splits)

lemma last_frame:
  "j < n + 1 \<Longrightarrow> (replicate n 0 @ [a :: number]) ! j \<noteq> 0 \<Longrightarrow> j = n"
  by (auto simp add: nth_append split: if_splits)

lemma replicate_pad:
  "n + 2 + m = k \<Longrightarrow> replicate n x @ [x, x] @ replicate m x = replicate k x"
  by (auto simp add: list_eq_iff_nth_eq nth_append nth_Cons')

lemma number_of_2_53_plus_1: "number_of 9007199254740993 = Fin 9007199254740992"
proof -
  have "round_int 9007199254740993 = 9007199254740992"
    by (simp add: round_int_def round_magnitude_def exponent_of_one)
  moreover have "\<bar>9007199254740992 :: int\<bar> < huge" by (rule small_less_huge) simp
  ultimately show ?thesis by (simp add: number_of_def)
qed

lemma number_of_2_53_plus_3: "number_of 9007199254740995 = Fin 9007199254740996"
proof -
  have "round_int 9007199254740995 = 9007199254740996"
    by (simp add: round_int_def round_magnitude_def exponent_of_one)
  moreover have "\<bar>9007199254740996 :: int\<bar> < huge" by (rule small_less_huge) simp
  ultimately show ?thesis by (simp add: number_of_def)
qed

lemma number_of_minus_2_53_plus_3: "number_of (- 9007199254740995) = Fin (- 9007199254740996)"
proof -
  have "round_int (- 9007199254740995) = - 9007199254740996"
    by (simp add: round_int_def round_magnitude_def exponent_of_one)
  moreover have "\<bar>9007199254740996 :: int\<bar> < huge" by (rule small_less_huge) simp
  ultimately show ?thesis by (simp add: number_of_def)
qed

lemma is_double_2_53_plus_2: "is_double 9007199254740994"
proof -
  have "round_int 9007199254740994 = 9007199254740994"
    by (simp add: round_int_def round_magnitude_def exponent_of_one)
  moreover have "\<bar>9007199254740994 :: int\<bar> < huge" by (rule small_less_huge) simp
  ultimately show ?thesis by (simp add: is_double_def)
qed

lemma is_double_2_53_plus_4: "is_double 9007199254740996"
proof -
  have "round_int 9007199254740996 = 9007199254740996"
    by (simp add: round_int_def round_magnitude_def exponent_of_one)
  moreover have "\<bar>9007199254740996 :: int\<bar> < huge" by (rule small_less_huge) simp
  ultimately show ?thesis by (simp add: is_double_def)
qed

lemmas double_eval =
  val_double_of is_double_2_53_plus_2 is_double_2_53_plus_4
  number_of_2_53_plus_1 number_of_2_53_plus_3 number_of_minus_2_53_plus_3



section \<open>The claims\<close>

text \<open>
  C1, as stated: for a single column \<open>[w]\<close> and column index 0, \<open>determine\<close> returns
  \<open>[max(min, w + step) - w]\<close> for every integer \<open>w\<close> and \<open>step\<close>, with \<open>step\<close> the
  public argument. The source negates the step first, so at \<open>w = 100\<close>, \<open>step = 10\<close>,
  \<open>min = 0\<close> it returns \<open>[-10]\<close>, not \<open>[10]\<close>. And its sums are rounded: at
  \<open>w = 2^53\<close>, \<open>step = -1\<close>, \<open>min = 0\<close> it returns \<open>[0]\<close>, which is neither
  \<open>max(0, w + step) - w = -1\<close> nor \<open>max(0, w - step) - w = 1\<close>.
\<close>

theorem determine_single_column_public_step_counterexample:
  "determine [double_of 100] 0 (double_of 10) (double_of 0) = Some [Fin (- 10)] \<and>
   determine [double_of 100] 0 (double_of 10) (double_of 0)
     \<noteq> Some [Fin (max 0 (100 + 10) - 100)] \<and>
   determine [double_of (2 ^ 53)] 0 (double_of (- 1)) (double_of 0) = Some [Fin 0] \<and>
   determine [double_of (2 ^ 53)] 0 (double_of (- 1)) (double_of 0)
     \<noteq> Some [Fin (max 0 (2 ^ 53 + (- 1)) - 2 ^ 53)] \<and>
   determine [double_of (2 ^ 53)] 0 (double_of (- 1)) (double_of 0)
     \<noteq> Some [Fin (max 0 (2 ^ 53 - (- 1)) - 2 ^ 53)]"
  by (simp add: determine_eval double_eval)

text \<open>
  C1, amended: for all integers \<open>w\<close>, \<open>step\<close> and \<open>min\<close> of magnitude at most \<open>2^52\<close>,
  \<open>min\<close> non-negative, \<open>determine\<close> applied to \<open>[w]\<close> with column index 0 returns the
  one-element sequence \<open>[max(min, w - step) - w]\<close>, where \<open>step\<close> is the public argument.
\<close>

theorem determine_single_column:
  "\<bar>val w\<bar> \<le> 2 ^ 52 \<Longrightarrow> \<bar>val step\<bar> \<le> 2 ^ 52 \<Longrightarrow> 0 \<le> val mn \<Longrightarrow> val mn \<le> 2 ^ 52 \<Longrightarrow>
   determine [w] 0 step mn = Some [Fin (max (val mn) (val w - val step) - val w)]"
proof -
  assume "\<bar>val w\<bar> \<le> 2 ^ 52" "\<bar>val step\<bar> \<le> 2 ^ 52" "0 \<le> val mn" "val mn \<le> 2 ^ 52"
  then have "\<bar>val w\<bar> \<le> 2 ^ 52" "\<bar>- val step\<bar> \<le> 2 ^ 52" "\<bar>val mn\<bar> \<le> 2 ^ 52" by simp_all
  from clip_add_exact(2) [OF this] show ?thesis by (simp add: determine_only num_def)
qed

theorem determine_single_column_witness:
  "\<bar>val (double_of 100)\<bar> \<le> 2 ^ 52 \<and> \<bar>val (double_of 10)\<bar> \<le> 2 ^ 52 \<and>
   0 \<le> val (double_of 0) \<and> val (double_of 0) \<le> 2 ^ 52 \<and>
   determine [double_of 100] 0 (double_of 10) (double_of 0) = Some [Fin (max 0 (100 - 10) - 100)]"
  using determine_single_column [of "double_of 100" "double_of 10" "double_of 0"] by simp







text \<open>
  C4: \<open>neighbours\<close> classifies by five cases: no widths give None; exactly one width
  gives Only(0) for any index; index 0 with more than one width gives Left(0, 1); index
  \<open>length - 1\<close> with more than one width gives Right(length-2, length-1); an index
  strictly between 0 and \<open>length - 1\<close> gives Middle(index-1, index, index+1).
\<close>

theorem neighbours_contract:
  "(ws = [] \<longrightarrow> neighbours ws i = CtxNone) \<and>
   (length ws = 1 \<longrightarrow> neighbours ws i = CtxOnly 0) \<and>
   (i = 0 \<and> length ws > 1 \<longrightarrow> neighbours ws i = CtxLeft 0 1) \<and>
   (i = int (length ws) - 1 \<and> length ws > 1 \<longrightarrow>
      neighbours ws i = CtxRight (int (length ws) - 2) (int (length ws) - 1)) \<and>
   (0 < i \<and> i < int (length ws) - 1 \<longrightarrow> neighbours ws i = CtxMiddle (i - 1) i (i + 1))"
  by (auto simp add: neighbours_def)

theorem neighbours_contract_witness:
  "neighbours ([] :: int list) 3 = CtxNone \<and>
   length [7 :: int] = 1 \<and> neighbours [7 :: int] 3 = CtxOnly 0 \<and>
   length [7, 8, 9 :: int] > 1 \<and> neighbours [7, 8, 9 :: int] 0 = CtxLeft 0 1 \<and>
   (2::int) = int (length [7, 8, 9 :: int]) - 1 \<and>
   neighbours [7, 8, 9 :: int] 2 = CtxRight 1 2 \<and>
   (0::int) < 1 \<and> (1::int) < int (length [7, 8, 9 :: int]) - 1 \<and>
   neighbours [7, 8, 9 :: int] 1 = CtxMiddle 0 1 2"
  using neighbours_contract [of "[] :: int list" 3] neighbours_contract [of "[7 :: int]" 3]
    neighbours_contract [of "[7, 8, 9 :: int]" 0] neighbours_contract [of "[7, 8, 9 :: int]" 2]
    neighbours_contract [of "[7, 8, 9 :: int]" 1]
  by simp




text \<open>
  C6: frame property. For a column index strictly between 0 and \<open>length - 1\<close>, every
  position of the result other than \<open>index\<close> and \<open>index + 1\<close> is exactly 0. In general,
  for any index, a non-zero delta sits either on the single column of a one-column
  sequence or, in a longer sequence, at \<open>index\<close> or \<open>index + 1\<close>.
\<close>

theorem determine_frame:
  "\<exists>ds. determine ws i s mn = Some ds \<and> length ds = length ws \<and>
     (0 < i \<and> i < int (length ws) - 1 \<longrightarrow>
        (\<forall>j < length ds. j \<noteq> nat i \<and> j \<noteq> nat i + 1 \<longrightarrow> ds ! j = 0)) \<and>
     (\<forall>j < length ds. ds ! j \<noteq> 0 \<longrightarrow>
        (length ws = 1 \<and> j = 0) \<or> (2 \<le> length ws \<and> (int j = i \<or> int j = i + 1)))"
proof (rule column_cases [of ws _ i])
  assume "ws = []"
  then show ?thesis by (simp add: determine_empty)
next
  assume "length ws = 1"
  then show ?thesis by (simp add: determine_only)
next
  assume "2 \<le> length ws" "i < 0 \<or> int (length ws) \<le> i"
  then show ?thesis by (auto simp add: determine_outside)
next
  assume h: "2 \<le> length ws" "i = int (length ws) - 1"
  then have n: "length ws - 1 + 1 = length ws" by linarith
  from h show ?thesis
    by (auto simp add: determine_right n dest!: last_frame [rotated])
next
  assume change: "2 \<le> length ws" "0 \<le> i" "i < int (length ws) - 1"
  from determine_change_shape [OF change, of s mn] obtain a b where
    run: "determine ws i s mn =
       Some (replicate (nat i) 0 @ [a, b] @ replicate (length ws - nat i - 2) 0)"
    by blast
  let ?ds = "replicate (nat i) 0 @ [a, b] @ replicate (length ws - nat i - 2) 0"
  from change have len: "nat i + 2 + (length ws - nat i - 2) = length ws" by linarith
  then have len': "length ?ds = length ws" by simp
  have fr: "j = nat i \<or> j = nat i + 1" if "j < length ws" "?ds ! j \<noteq> 0" for j
    using that pair_frame [of j "nat i" "length ws - nat i - 2" a b] len by simp
  have middle: "\<forall>j < length ?ds. j \<noteq> nat i \<and> j \<noteq> nat i + 1 \<longrightarrow> ?ds ! j = 0"
    using fr len' by metis
  have general: "\<forall>j < length ?ds. ?ds ! j \<noteq> 0 \<longrightarrow>
        (length ws = 1 \<and> j = 0) \<or> (2 \<le> length ws \<and> (int j = i \<or> int j = i + 1))"
  proof (intro allI impI)
    fix j assume "j < length ?ds" "?ds ! j \<noteq> 0"
    with fr len' have "j = nat i \<or> j = nat i + 1" by metis
    with change show "(length ws = 1 \<and> j = 0) \<or> (2 \<le> length ws \<and> (int j = i \<or> int j = i + 1))"
      by auto
  qed
  from middle have middle': "0 < i \<and> i < int (length ws) - 1 \<longrightarrow>
        (\<forall>j < length ?ds. j \<noteq> nat i \<and> j \<noteq> nat i + 1 \<longrightarrow> ?ds ! j = 0)" by (rule impI)
  show ?thesis
    by (rule exI [of _ ?ds]) (intro conjI run len' middle' general)
qed

theorem determine_frame_witness:
  "(0::int) < 1 \<and> (1::int) < int (length (map double_of [10, 20, 30, 40])) - 1 \<and>
   (\<exists>ds. determine (map double_of [10, 20, 30, 40]) 1 (double_of 5) (double_of 0) = Some ds \<and>
         length ds = 4 \<and> ds ! 0 = 0 \<and> ds ! 3 = 0 \<and> ds ! 1 \<noteq> 0 \<and> ds ! 2 \<noteq> 0)"
  using determine_frame [of "map double_of [10, 20, 30, 40]" 1 "double_of 5" "double_of 0"]
  by (simp add: determine_eval)

text \<open>
  C7: for every width sequence, column index, step and \<open>min\<close>, \<open>determine\<close> returns a
  sequence as long as the input; for the empty sequence it returns the empty sequence.
\<close>

theorem determine_length:
  "(\<exists>ds. determine ws i s mn = Some ds \<and> length ds = length ws) \<and>
   determine [] i s mn = Some []"
  by (simp add: determine_defined determine_empty)

text \<open>
  C8: for a width sequence of length at least 2, the last column index and a non-positive
  public step \<open>s\<close>, for any \<open>min\<close>, the delta of the last column is exactly \<open>-s\<close> and
  every other delta is 0; no floor is applied, so the new width may stay below \<open>min\<close>
  (widths \<open>[50, 5]\<close>, step 0, \<open>min = 10\<close>). In particular
  \<open>determine([50,50,50], 2, -20, 10) = [0,0,20]\<close>.
\<close>

theorem determine_right_grow_unclipped:
  "(2 \<le> length ws \<and> val s \<le> 0 \<longrightarrow>
      determine ws (int (length ws) - 1) s mn
        = Some (replicate (length ws - 1) 0 @ [Fin (- val s)])) \<and>
   determine (map double_of [50, 50, 50]) 2 (double_of (- 20)) (double_of 10)
     = Some [0, 0, Fin 20] \<and>
   (\<exists>e. determine (map double_of [50, 5]) 1 (double_of 0) (double_of 10) = Some [0, Fin e] \<and>
        5 + e < val (double_of 10))"
  by (simp add: determine_right)

theorem determine_right_grow_unclipped_witness:
  "2 \<le> length (map double_of [50, 50, 50]) \<and> val (double_of (- 20)) \<le> 0 \<and>
   determine (map double_of [50, 50, 50]) (int (length (map double_of [50, 50, 50])) - 1)
       (double_of (- 20)) (double_of 10) =
     Some (replicate (length (map double_of [50, 50, 50]) - 1) 0 @ [Fin 20])"
  using determine_right_grow_unclipped [of "map double_of [50, 50, 50]" "double_of (- 20)" "double_of 10"]
  by simp

text \<open>
  C9: \<open>determine\<close> returns a delta sequence for every integer column index, so no read
  of a width falls outside the sequence (a result \<open>Some ds\<close> means that every
  \<open>lookup\<close> made on the way was in range). For a sequence of length at least 2 and an
  index outside \<open>[0, length - 1]\<close>, the classification is None and the result is all
  zeros, as long as the input. For a sequence of length 1 the index is ignored: the
  classification is Only(0) and the result is the one for index 0.
\<close>

theorem determine_total:
  "(\<exists>ds. determine ws i s mn = Some ds) \<and>
   (2 \<le> length ws \<and> (i < 0 \<or> int (length ws) - 1 < i) \<longrightarrow>
      neighbours ws i = CtxNone \<and> determine ws i s mn = Some (replicate (length ws) 0)) \<and>
   (length ws = 1 \<longrightarrow> neighbours ws i = CtxOnly 0 \<and> determine ws i s mn = determine ws 0 s mn)"
proof (intro conjI impI)
  from determine_defined [of ws i s mn] show "\<exists>ds. determine ws i s mn = Some ds" by blast
next
  assume "2 \<le> length ws \<and> (i < 0 \<or> int (length ws) - 1 < i)"
  then show "neighbours ws i = CtxNone" by (auto simp add: neighbours_def)
next
  assume "2 \<le> length ws \<and> (i < 0 \<or> int (length ws) - 1 < i)"
  then have "2 \<le> length ws" and "i < 0 \<or> int (length ws) \<le> i" by linarith+
  then show "determine ws i s mn = Some (replicate (length ws) 0)"
    by (rule determine_outside)
next
  assume "length ws = 1"
  then show "neighbours ws i = CtxOnly 0" by (simp add: neighbours_def)
next
  assume "length ws = 1"
  then show "determine ws i s mn = determine ws 0 s mn" by (simp add: determine_only)
qed

theorem determine_total_witness:
  "2 \<le> length (map double_of [5, 6, 7]) \<and> (- 1 :: int) < 0 \<and>
   int (length (map double_of [5, 6, 7])) - 1 < 3 \<and>
   neighbours (map double_of [5, 6, 7]) (- 1) = CtxNone \<and>
   determine (map double_of [5, 6, 7]) (- 1) (double_of 1) (double_of 10) = Some [0, 0, 0] \<and>
   neighbours (map double_of [5, 6, 7]) 3 = CtxNone \<and>
   determine (map double_of [5, 6, 7]) 3 (double_of 1) (double_of 10) = Some [0, 0, 0] \<and>
   length [double_of 100] = 1 \<and> neighbours [double_of 100] 7 = CtxOnly 0 \<and>
   determine [double_of 100] 7 (double_of 10) (double_of 0)
     = determine [double_of 100] 0 (double_of 10) (double_of 0)"
  using determine_total [of "map double_of [5, 6, 7]" "- 1" "double_of 1" "double_of 10"]
    determine_total [of "map double_of [5, 6, 7]" 3 "double_of 1" "double_of 10"]
    determine_total [of "[double_of 100]" 7 "double_of 10" "double_of 0"]
  by (simp add: numeral_3_eq_3)

text \<open>
  C10: when every width is at least \<open>min\<close> and the column index is in range, a zero step
  gives the all-zero sequence. The hypothesis on the widths is needed: the single column
  \<open>[5]\<close> with \<open>min = 10\<close> and step 0 gets the delta 5.
\<close>

theorem determine_zero_step:
  "((\<forall>w \<in> set ws. val mn \<le> val w) \<and> 0 \<le> i \<and> i < int (length ws) \<longrightarrow>
      determine ws i (double_of 0) mn = Some (replicate (length ws) 0)) \<and>
   (\<exists>ds. determine [double_of 5] 0 (double_of 0) (double_of 10) = Some ds \<and> ds \<noteq> [0])"
proof (intro conjI impI)
  assume h: "(\<forall>w \<in> set ws. val mn \<le> val w) \<and> 0 \<le> i \<and> i < int (length ws)"
  then have floor: "val mn \<le> val (ws ! k)" if "k < length ws" for k using that by simp
  have keep: "sub (js_max (num mn) (add (num (ws ! k)) (Fin 0))) (num (ws ! k)) = 0"
    and keep': "sub (js_max (num mn) (sub (num (ws ! k)) (Fin 0))) (num (ws ! k)) = 0"
    if "k < length ws" for k
  proof -
    from floor [OF that] have "js_max (num mn) (num (ws ! k)) = num (ws ! k)"
      by (simp add: num_def max_def)
    then show "sub (js_max (num mn) (add (num (ws ! k)) (Fin 0))) (num (ws ! k)) = 0"
      and "sub (js_max (num mn) (sub (num (ws ! k)) (Fin 0))) (num (ws ! k)) = 0"
      by (simp_all add: add_zero_double sub_zero_double) (simp_all add: num_def sub_self)
  qed
  show "determine ws i (double_of 0) mn = Some (replicate (length ws) 0)"
  proof (rule column_cases [of ws _ i])
    assume "ws = []"
    then show ?thesis by (simp add: determine_empty)
  next
    assume one: "length ws = 1"
    with keep [of 0] show ?thesis by (simp add: determine_only)
  next
    assume "2 \<le> length ws" "i < 0 \<or> int (length ws) \<le> i"
    with h show ?thesis by linarith
  next
    assume r: "2 \<le> length ws" "i = int (length ws) - 1"
    then have "Suc (length ws - 1) = length ws" by linarith
    with r show ?thesis
      by (simp add: determine_right replicate_append_same zero_number_def flip: replicate_Suc)
  next
    assume change: "2 \<le> length ws" "0 \<le> i" "i < int (length ws) - 1"
    then have "nat i + 1 < length ws" by linarith
    from keep' [OF this] change have run: "determine ws i (double_of 0) mn =
        Some (replicate (nat i) 0 @ [0, 0] @ replicate (length ws - nat i - 2) 0)"
      by (simp add: determine_change onChange_grow zero_number_def)
    from change have "nat i + 2 + (length ws - nat i - 2) = length ws" by linarith
    then have "replicate (nat i) 0 @ [0, 0] @ replicate (length ws - nat i - 2) 0 =
        replicate (length ws) (0::number)"
      by (rule replicate_pad)
    with run show ?thesis by (simp only:)
  qed
next
  show "\<exists>ds. determine [double_of 5] 0 (double_of 0) (double_of 10) = Some ds \<and> ds \<noteq> [0]"
    by (simp add: determine_eval)
qed

theorem determine_zero_step_witness:
  "val (double_of 10) \<le> val (double_of 50) \<and> val (double_of 10) \<le> val (double_of 60) \<and>
   val (double_of 10) \<le> val (double_of 70) \<and> (0::int) \<le> 1 \<and>
   (1::int) < int (length (map double_of [50, 60, 70])) \<and>
   determine (map double_of [50, 60, 70]) 1 (double_of 0) (double_of 10)
     = Some (replicate (length (map double_of [50, 60, 70])) 0)"
  using determine_zero_step [of "map double_of [50, 60, 70]" "double_of 10" 1] by simp

end
